theory Spec2Isabelle
  imports Main "HOL-Library.Word" "HOL-Library.Signed_Division"
begin

unbundle bit_operations_syntax

section \<open>Machine integers and constants of wheel.go\<close>

text \<open>
  Go's \<open>uint32\<close> is a 32-bit word: \<open>+\<close> and \<open>-\<close> wrap, \<open>drop_bit\<close> is \<open>>>\<close>.
  \<open>int64\<close> and \<open>time.Duration\<close> (an \<open>int64\<close> of nanoseconds) are 64-bit words read
  in two's complement by \<open>sint\<close>: \<open>+\<close> and \<open>-\<close> wrap as Go's do, and Go's \<open>/\<close> and
  \<open>%\<close>, which round towards zero, are written out below. Go's \<open>int\<close> is used in
  wheel.go only for slot indices and levels, which stay far below \<open>2 ^ 63\<close>: \<open>nat\<close>.
  A \<open>*Element\<close> is a handle into a store of elements.
\<close>

type_synonym uint32 = "32 word"
type_synonym int64 = "64 word"
type_synonym handle = nat

definition tvRBits :: nat where "tvRBits = 8"
definition tvNBits :: nat where "tvNBits = 6"
definition tvNNum :: nat where "tvNNum = 4"
definition tvRSize :: nat where "tvRSize = 2 ^ tvRBits"
definition tvNSize :: nat where "tvNSize = 2 ^ tvNBits"
definition tvRMask :: nat where "tvRMask = tvRSize - 1"
definition tvNMask :: nat where "tvNMask = tvNSize - 1"

text \<open>What can stop a call: a slice index out of range, an integer division by zero,
  a nil pointer dereferenced, a panic raised by a job's \<open>Run\<close>.\<close>

datatype error = IndexOutOfRange | DivideByZero | NilPointer | JobPanic

text \<open>Go's \<open>a / b\<close> and \<open>a % b\<close> on \<open>int64\<close>: the quotient rounds towards zero, the
  remainder has the sign of \<open>a\<close>, the result wraps (\<open>MinInt64 / -1 = MinInt64\<close>), and a
  zero divisor panics.\<close>

definition div64 :: "int64 \<Rightarrow> int64 \<Rightarrow> error + int64" where
  "div64 a b = (if b = 0 then Inl DivideByZero else Inr (word_of_int (sint a sdiv sint b)))"

definition mod64 :: "int64 \<Rightarrow> int64 \<Rightarrow> error + int64" where
  "mod64 a b = (if b = 0 then Inl DivideByZero else Inr (word_of_int (sint a smod sint b)))"

section \<open>Slot addressing (Wheel.addTimer, lines 263-273)\<close>

text \<open>The loop \<open>for idx >>= tvRBits; idx >= tvNSize && level < (tvNNum-1); level++
  { idx >>= tvNBits }\<close>, entered with \<open>idx\<close> already shifted by \<open>tvRBits\<close> and
  \<open>level = 0\<close>; it returns the final \<open>level\<close>.\<close>

function level_loop :: "uint32 \<Rightarrow> nat \<Rightarrow> nat" where
  "level_loop idx level =
     (if idx \<ge> of_nat tvNSize \<and> level < tvNNum - 1
      then level_loop (drop_bit tvNBits idx) (level + 1)
      else level)"
  by pat_completeness auto
termination
  by (relation "measure (\<lambda>(idx, level). tvNNum - 1 - level)") auto

declare level_loop.simps [simp del]

text \<open>The value of \<open>spokeIdx\<close> that addTimer computes from the entry's \<open>next\<close> and the
  wheel's \<open>curTick\<close>.\<close>

definition spokeIdx :: "uint32 \<Rightarrow> uint32 \<Rightarrow> nat" where
  "spokeIdx nxt cur =
     (let idx = nxt - cur in
      if idx < of_nat tvRSize then unat (nxt AND of_nat tvRMask)
      else
        let level = level_loop (drop_bit tvRBits idx) 0
        in tvRSize + tvNSize * level
           + unat (drop_bit (tvRBits + tvNBits * level) nxt AND of_nat tvNMask))"

section \<open>Data model (lines 21-53)\<close>

text \<open>\<open>internalEntry\<close>, field by field; \<open>next\<close> is an Isar keyword, so the field is
  \<open>next_tick\<close> here. The job is kept abstract (\<open>'j\<close>): what running it does is a
  parameter of the driver below.\<close>

record 'j internalEntry =
  next_tick :: uint32
  count :: uint32
  number :: uint32
  interval :: int64
  job :: 'j

text \<open>The lists of the wheel: \<open>Spoke i\<close> is the list \<open>spokes[i]\<close>, \<open>DoNow\<close> the list
  \<open>doNow\<close>.\<close>

datatype listref = Spoke nat | DoNow

text \<open>Modelled from the spec: the list facility github.com/thinkgos/list is imported by
  wheel.go and is not under src/. Section 1 of the spec gives its contract: push to the
  back, pop from the front, remove-self (``a node knows and can detach itself from its
  current list''), splice a whole list to the back of another, a length query, FIFO
  order. An \<open>Element\<close> therefore carries \<open>in_list\<close>, the list it is in (\<open>None\<close> when
  detached), beside its \<open>Value\<close>, the \<open>*internalEntry\<close> that \<open>Element.entry()\<close> reads.\<close>

record 'j Element =
  in_list :: "listref option"
  Value :: "'j internalEntry"

text \<open>\<open>Wheel\<close>. The fields \<open>rw\<close>, \<open>stop\<close> and \<open>useGoroutine\<close> (locking and the stop
  channel) are not modelled: every operation below is one critical section. The field
  \<open>interval\<close> of the wheel is \<open>w_interval\<close>. Two more fields hold the store of the
  elements the lists point to: \<open>elems\<close> maps a handle to its element (\<open>None\<close> for a
  handle that was never allocated, read as a nil pointer), and \<open>allocated\<close> is the next
  handle \<open>NewJob\<close> hands out.\<close>

record 'j Wheel =
  spokes :: "handle list list"
  doNow :: "handle list"
  curTick :: uint32
  granularity :: int64
  w_interval :: int64
  running :: bool
  elems :: "handle \<rightharpoonup> 'j Element"
  allocated :: nat

section \<open>The list facility\<close>

definition get_list :: "listref \<Rightarrow> 'j Wheel \<Rightarrow> handle list" where
  "get_list r w = (case r of DoNow \<Rightarrow> doNow w | Spoke i \<Rightarrow> spokes w ! i)"

definition set_list :: "listref \<Rightarrow> handle list \<Rightarrow> 'j Wheel \<Rightarrow> 'j Wheel" where
  "set_list r xs w =
     (case r of DoNow \<Rightarrow> w\<lparr>doNow := xs\<rparr> | Spoke i \<Rightarrow> w\<lparr>spokes := (spokes w)[i := xs]\<rparr>)"

definition upd_elem :: "handle \<Rightarrow> ('j Element \<Rightarrow> 'j Element) \<Rightarrow> 'j Wheel \<Rightarrow> 'j Wheel" where
  "upd_elem e f w =
     (case elems w e of None \<Rightarrow> w | Some el \<Rightarrow> w\<lparr>elems := (elems w)(e \<mapsto> f el)\<rparr>)"

definition upd_entry ::
  "handle \<Rightarrow> ('j internalEntry \<Rightarrow> 'j internalEntry) \<Rightarrow> 'j Wheel \<Rightarrow> 'j Wheel" where
  "upd_entry e f w = upd_elem e (\<lambda>el. el\<lparr>Value := f (Value el)\<rparr>) w"

text \<open>Modelled from the spec: \<open>List.Len\<close>.\<close>

definition Len :: "listref \<Rightarrow> 'j Wheel \<Rightarrow> nat" where
  "Len r w = length (get_list r w)"

text \<open>Modelled from the spec: \<open>List.PushElementBack\<close>, the push to the back of a list.
  wheel.go only pushes detached elements.\<close>

definition PushElementBack :: "listref \<Rightarrow> handle \<Rightarrow> 'j Wheel \<Rightarrow> 'j Wheel" where
  "PushElementBack r e w =
     upd_elem e (\<lambda>el. el\<lparr>in_list := Some r\<rparr>) (set_list r (get_list r w @ [e]) w)"

text \<open>Modelled from the spec: \<open>List.PopFront\<close>, the pop from the front; \<open>None\<close> (nil) on
  an empty list.\<close>

definition PopFront :: "listref \<Rightarrow> 'j Wheel \<Rightarrow> handle option \<times> 'j Wheel" where
  "PopFront r w =
     (case get_list r w of
        [] \<Rightarrow> (None, w)
      | e # es \<Rightarrow> (Some e, upd_elem e (\<lambda>el. el\<lparr>in_list := None\<rparr>) (set_list r es w)))"

text \<open>Modelled from the spec: \<open>Element.RemoveSelf\<close>, the remove-self: an element that is
  in a list leaves it, a detached element stays as it is. The receiver is dereferenced,
  so a nil handle panics.\<close>

definition RemoveSelf :: "handle \<Rightarrow> 'j Wheel \<Rightarrow> error + 'j Wheel" where
  "RemoveSelf e w =
     (case elems w e of
        None \<Rightarrow> Inl NilPointer
      | Some el \<Rightarrow>
          (case in_list el of
             None \<Rightarrow> Inr w
           | Some r \<Rightarrow>
               Inr (upd_elem e (\<lambda>el. el\<lparr>in_list := None\<rparr>)
                      (set_list r (remove1 e (get_list r w)) w))))"

text \<open>Modelled from the spec: \<open>List.SpliceBackList\<close>, the splice of the whole list
  \<open>other\<close> to the back of the list \<open>r\<close>; \<open>other\<close> is left empty.\<close>

definition SpliceBackList :: "listref \<Rightarrow> listref \<Rightarrow> 'j Wheel \<Rightarrow> 'j Wheel" where
  "SpliceBackList r other w =
     (let xs = get_list other w;
          w1 = set_list r (get_list r w @ xs) (set_list other [] w)
      in w1\<lparr>elems := (\<lambda>h. if h \<in> set xs
                             then map_option (\<lambda>el. el\<lparr>in_list := Some r\<rparr>) (elems w1 h)
                             else elems w1 h)\<rparr>)"

section \<open>The wheel's operations\<close>

text \<open>The index expression \<open>sf.spokes[i]\<close>: Go panics when \<open>i\<close> is out of range.\<close>

definition spoke_at :: "nat \<Rightarrow> 'j Wheel \<Rightarrow> error + listref" where
  "spoke_at i sf = (if i < length (spokes sf) then Inr (Spoke i) else Inl IndexOutOfRange)"

text \<open>\<open>Element.entry()\<close> (lines 38-40).\<close>

definition entry :: "handle \<Rightarrow> 'j Wheel \<Rightarrow> error + 'j internalEntry" where
  "entry e sf = (case elems sf e of None \<Rightarrow> Inl NilPointer | Some el \<Rightarrow> Inr (Value el))"

text \<open>\<open>NewWheel\<close> (lines 56-70). \<open>DefaultGranularity\<close> and \<open>DefaultInterval\<close> are
  constants declared outside wheel.go, and \<open>time.Now().UnixNano()\<close> is the clock: all
  three are arguments here.\<close>

definition NewWheel :: "int64 \<Rightarrow> int64 \<Rightarrow> int64 \<Rightarrow> error + 'j Wheel" where
  "NewWheel DefaultGranularity DefaultInterval now =
     (case div64 now DefaultGranularity of
        Inl err \<Rightarrow> Inl err
      | Inr q \<Rightarrow>
          Inr \<lparr>spokes = replicate (tvRSize + tvNSize * tvNNum) [],
               doNow = [],
               curTick = ucast q,
               granularity = DefaultGranularity,
               w_interval = DefaultInterval,
               running = False,
               elems = Map.empty,
               allocated = 0\<rparr>)"

text \<open>\<open>Wheel.nextTimeout\<close> (lines 116-118): the sum wraps in \<open>int64\<close>, the quotient
  rounds towards zero, and \<open>uint32(...)\<close> keeps its low 32 bits.\<close>

definition nextTimeout :: "'j Wheel \<Rightarrow> int64 \<Rightarrow> int64 \<Rightarrow> error + uint32" where
  "nextTimeout sf nowNano timeout =
     (case div64 (nowNano + timeout + granularity sf - 1) (granularity sf) of
        Inl err \<Rightarrow> Inl err
      | Inr q \<Rightarrow> Inr (ucast q))"

text \<open>\<open>Wheel.NewJob\<close> (lines 121-134): a new, detached element; the variadic
  \<open>interval\<close> is a list, whose first value is used when there is one.\<close>

definition NewJob :: "'j \<Rightarrow> uint32 \<Rightarrow> int64 list \<Rightarrow> 'j Wheel \<Rightarrow> handle \<times> 'j Wheel" where
  "NewJob jb num ivs sf =
     (let val = (if length ivs > 0 then hd ivs else w_interval sf);
          e = allocated sf
      in (e, sf\<lparr>elems := (elems sf)(e \<mapsto>
                  \<lparr>in_list = None,
                   Value = \<lparr>next_tick = 0, count = 0, number = num,
                            interval = val, job = jb\<rparr>\<rparr>),
                allocated := Suc e\<rparr>))"

text \<open>\<open>Wheel.addTimer\<close> (lines 260-275).\<close>

definition addTimer :: "handle \<Rightarrow> 'j Wheel \<Rightarrow> error + 'j Wheel" where
  "addTimer e sf =
     (case entry e sf of
        Inl err \<Rightarrow> Inl err
      | Inr en \<Rightarrow>
          (case spoke_at (spokeIdx (next_tick en) (curTick sf)) sf of
             Inl err \<Rightarrow> Inl err
           | Inr r \<Rightarrow> Inr (PushElementBack r e sf)))"

text \<open>\<open>Wheel.AddJob\<close> (lines 142-153); \<open>now\<close> is \<open>time.Now().UnixNano()\<close>.\<close>

definition AddJob ::
  "int64 \<Rightarrow> 'j \<Rightarrow> uint32 \<Rightarrow> int64 list \<Rightarrow> 'j Wheel \<Rightarrow> error + handle \<times> 'j Wheel" where
  "AddJob now jb num ivs sf =
     (case NewJob jb num ivs sf of
        (e, sf1) \<Rightarrow>
          (case entry e sf1 of
             Inl err \<Rightarrow> Inl err
           | Inr en \<Rightarrow>
               (case nextTimeout sf1 now (interval en) of
                  Inl err \<Rightarrow> Inl err
                | Inr t \<Rightarrow>
                    let sf2 = upd_entry e (\<lambda>en. en\<lparr>next_tick := t\<rparr>) sf1
                    in if t = curTick sf2 then Inr (e, PushElementBack DoNow e sf2)
                       else (case addTimer e sf2 of
                               Inl err \<Rightarrow> Inl err
                             | Inr sf3 \<Rightarrow> Inr (e, sf3)))))"

text \<open>\<open>Wheel.Start\<close> (lines 181-190).\<close>

definition Start :: "int64 \<Rightarrow> handle \<Rightarrow> 'j Wheel \<Rightarrow> error + 'j Wheel" where
  "Start now e sf =
     (case RemoveSelf e sf of
        Inl err \<Rightarrow> Inl err
      | Inr sf1 \<Rightarrow>
          (case entry e sf1 of
             Inl err \<Rightarrow> Inl err
           | Inr en \<Rightarrow>
               let sf2 = upd_entry e (\<lambda>en. en\<lparr>count := 0\<rparr>) sf1
               in (case nextTimeout sf2 now (interval en) of
                     Inl err \<Rightarrow> Inl err
                   | Inr t \<Rightarrow> addTimer e (upd_entry e (\<lambda>en. en\<lparr>next_tick := t\<rparr>) sf2))))"

text \<open>\<open>Wheel.Delete\<close> (lines 192-197).\<close>

definition Delete :: "handle \<Rightarrow> 'j Wheel \<Rightarrow> error + 'j Wheel" where
  "Delete e sf = RemoveSelf e sf"

text \<open>\<open>Wheel.Modify\<close> (lines 200-203): the body is \<open>return sf\<close>.\<close>

definition Modify :: "handle \<Rightarrow> int64 \<Rightarrow> 'j Wheel \<Rightarrow> 'j Wheel" where
  "Modify e ivl sf = sf"

section \<open>The driver (Wheel.runWork and Wheel.cascade)\<close>

text \<open>The inner loop of \<open>cascade\<close> (lines 251-253): \<open>for spoke.Len() > 0
  { sf.addTimer(spoke.PopFront()) }\<close>. Nothing in the loop bounds the number of
  passes (addTimer may push the element back onto the same list), so the loop is a
  partial function: \<open>None\<close> is a loop that never ends.\<close>

partial_function (option) drain_spoke :: "listref \<Rightarrow> 'j Wheel \<Rightarrow> (error + 'j Wheel) option" where
  "drain_spoke spoke sf =
     (if Len spoke sf > 0
      then (case PopFront spoke sf of
              (None, sf1) \<Rightarrow> Some (Inl NilPointer)
            | (Some e, sf1) \<Rightarrow>
                (case addTimer e sf1 of
                   Inl err \<Rightarrow> Some (Inl err)
                 | Inr sf2 \<Rightarrow> drain_spoke spoke sf2))
      else Some (Inr sf))"

text \<open>\<open>Wheel.cascade\<close> (lines 247-258): the outer loop, entered at \<open>level\<close>. The shift
  is \<open>tvRBits + level*tvNNum\<close>, as line 249 writes it.\<close>

function cascade_from :: "nat \<Rightarrow> 'j Wheel \<Rightarrow> (error + 'j Wheel) option" where
  "cascade_from level sf =
     (let index = unat (drop_bit (tvRBits + level * tvNNum) (curTick sf) AND of_nat tvNMask)
      in case spoke_at (tvRSize + tvNSize * level + index) sf of
           Inl err \<Rightarrow> Some (Inl err)
         | Inr spoke \<Rightarrow>
             (case drain_spoke spoke sf of
                None \<Rightarrow> None
              | Some (Inl err) \<Rightarrow> Some (Inl err)
              | Some (Inr sf1) \<Rightarrow>
                  if index = 0 \<and> level + 1 < tvNNum then cascade_from (level + 1) sf1
                  else Some (Inr sf1)))"
  by pat_completeness auto
termination
  by (relation "measure (\<lambda>(level, sf). tvNNum - level)") auto

declare cascade_from.simps [simp del]

definition cascade :: "'j Wheel \<Rightarrow> (error + 'j Wheel) option" where
  "cascade sf = cascade_from 0 sf"

text \<open>The catch-up loop of \<open>runWork\<close> (lines 215-222): \<open>past\<close> passes, each one tick.\<close>

fun advance :: "nat \<Rightarrow> 'j Wheel \<Rightarrow> (error + 'j Wheel) option" where
  "advance 0 sf = Some (Inr sf)"
| "advance (Suc past) sf =
     (let sf1 = sf\<lparr>curTick := curTick sf + 1\<rparr>;
          index = curTick sf1 AND of_nat tvRMask
      in case (if index = 0 then cascade sf1 else Some (Inr sf1)) of
           None \<Rightarrow> None
         | Some (Inl err) \<Rightarrow> Some (Inl err)
         | Some (Inr sf2) \<Rightarrow>
             (case spoke_at (unat index) sf2 of
                Inl err \<Rightarrow> Some (Inl err)
              | Inr spoke \<Rightarrow> advance past (SpliceBackList DoNow spoke sf2)))"

text \<open>The first half of the body of the drain loop (lines 225-232): pop the front of
  \<open>doNow\<close>, count the firing, and put the entry back on the wheel when it repeats.\<close>

definition fire :: "int64 \<Rightarrow> 'j Wheel \<Rightarrow> error + handle \<times> 'j Wheel" where
  "fire nano sf =
     (case PopFront DoNow sf of
        (None, sf1) \<Rightarrow> Inl NilPointer
      | (Some e, sf1) \<Rightarrow>
          (case entry e sf1 of
             Inl err \<Rightarrow> Inl err
           | Inr en0 \<Rightarrow>
               let sf2 = upd_entry e (\<lambda>en. en\<lparr>count := count en + 1\<rparr>) sf1;
                   en = en0\<lparr>count := count en0 + 1\<rparr>
               in if number en = 0 \<or> count en < number en
                  then (case nextTimeout sf2 nano (interval en) of
                          Inl err \<Rightarrow> Inl err
                        | Inr t \<Rightarrow>
                            (case addTimer e (upd_entry e (\<lambda>en. en\<lparr>next_tick := t\<rparr>) sf2) of
                               Inl err \<Rightarrow> Inl err
                             | Inr sf3 \<Rightarrow> Inr (e, sf3)))
                  else Inr (e, sf2)))"

text \<open>The drain loop (lines 224-236). \<open>run j sf\<close> is what \<open>entry.job.Run()\<close> does, called
  with the lock released: it may change the wheel (a job may call \<open>AddJob\<close>,
  \<open>Start\<close>, \<open>Delete\<close>), and it may panic. A job can refill \<open>doNow\<close>, so the loop is a
  partial function too.\<close>

partial_function (option) drain ::
  "('j \<Rightarrow> 'j Wheel \<Rightarrow> error + 'j Wheel) \<Rightarrow> int64 \<Rightarrow> 'j Wheel \<Rightarrow> (error + 'j Wheel) option" where
  "drain run nano sf =
     (if Len DoNow sf > 0
      then (case fire nano sf of
              Inl err \<Rightarrow> Some (Inl err)
            | Inr (e, sf1) \<Rightarrow>
                (case entry e sf1 of
                   Inl err \<Rightarrow> Some (Inl err)
                 | Inr en \<Rightarrow>
                     (case run (job en) sf1 of
                        Inl err \<Rightarrow> Some (Inl err)
                      | Inr sf2 \<Rightarrow> drain run nano sf2)))
      else Some (Inr sf))"

text \<open>One pass of the \<open>case now := <-tick.C\<close> branch of \<open>runWork\<close> (lines 211-238);
  \<open>nano\<close> is \<open>now.UnixNano()\<close>. The result carries \<open>waitMs\<close>, the duration handed to
  \<open>tick.Reset\<close>.\<close>

definition wakeup ::
  "('j \<Rightarrow> 'j Wheel \<Rightarrow> error + 'j Wheel) \<Rightarrow> int64 \<Rightarrow> 'j Wheel
   \<Rightarrow> (error + int64 \<times> 'j Wheel) option" where
  "wakeup run nano sf =
     (case mod64 nano (granularity sf) of
        Inl err \<Rightarrow> Some (Inl err)
      | Inr waitMs \<Rightarrow>
          (case div64 nano (granularity sf) of
             Inl err \<Rightarrow> Some (Inl err)
           | Inr q \<Rightarrow>
               (case advance (unat (ucast q - curTick sf)) sf of
                  None \<Rightarrow> None
                | Some (Inl err) \<Rightarrow> Some (Inl err)
                | Some (Inr sf1) \<Rightarrow>
                    (case drain run nano sf1 of
                       None \<Rightarrow> None
                     | Some (Inl err) \<Rightarrow> Some (Inl err)
                     | Some (Inr sf2) \<Rightarrow> Some (Inr (waitMs, sf2))))))"

text \<open>The loop of \<open>runWork\<close> (lines 209-243) over what its \<open>select\<close> receives, in
  order: \<open>Tick nano\<close> is a value of \<open>tick.C\<close> whose \<open>UnixNano()\<close> is \<open>nano\<close>, \<open>Stop\<close> a
  value of \<open>sf.stop\<close>, on which the loop returns. When nothing more arrives the loop is
  left waiting, with the wheel as the result shows it.\<close>

datatype event = Tick int64 | Stop

fun runWork ::
  "('j \<Rightarrow> 'j Wheel \<Rightarrow> error + 'j Wheel) \<Rightarrow> event list \<Rightarrow> 'j Wheel \<Rightarrow> (error + 'j Wheel) option" where
  "runWork run [] sf = Some (Inr sf)"
| "runWork run (Stop # evs) sf = Some (Inr sf)"
| "runWork run (Tick nano # evs) sf =
     (case wakeup run nano sf of
        None \<Rightarrow> None
      | Some (Inl err) \<Rightarrow> Some (Inl err)
      | Some (Inr (waitMs, sf1)) \<Rightarrow> runWork run evs sf1)"

section \<open>The placement rule as section 4.3 of the spec words it\<close>

text \<open>The cascade level of a delta of at least 256 ticks: shift the delta right by 8
  bits, then by 6 more per level passed, and take the first of the levels 0, 1, 2 at
  which what is left is below 64; level 3 takes every delta that none of them takes.\<close>

definition spec_level :: "uint32 \<Rightarrow> nat" where
  "spec_level delta =
     (case find (\<lambda>L. drop_bit (8 + 6 * L) delta < 64) [0, 1, 2] of
        Some L \<Rightarrow> L
      | None \<Rightarrow> 3)"

text \<open>The array index of the bucket: main level slot \<open>next & 0xFF\<close> for a delta below
  256, else \<open>256 + 64 * L + ((next >> (8 + 6 * L)) & 0x3F)\<close> at the level \<open>L\<close>.\<close>

definition spec_slot :: "uint32 \<Rightarrow> uint32 \<Rightarrow> nat" where
  "spec_slot nxt cur =
     (let delta = nxt - cur in
      if delta < 256 then unat (nxt AND 0xFF)
      else let L = spec_level delta
           in 256 + 64 * L + unat (drop_bit (8 + 6 * L) nxt AND 0x3F))"

section \<open>The deadline as section 4.2 of the spec words it\<close>

text \<open>\<open>floor((nowNanos + timeout + granularity - 1) / granularity)\<close> over the integers
  (\<open>div\<close> on \<open>int\<close> is the floor), reduced modulo \<open>2 ^ 32\<close>.\<close>

definition spec_nextDeadline :: "int \<Rightarrow> int \<Rightarrow> int \<Rightarrow> uint32" where
  "spec_nextDeadline gran nowNanos timeout =
     word_of_int ((nowNanos + timeout + gran - 1) div gran)"

section \<open>Concrete wheels\<close>

text \<open>An empty wheel at tick 0 with a granularity of 100 ms, and the same wheel owning
  one detached element due at tick \<open>0x4005\<close>.\<close>

definition wheel0 :: "nat Wheel" where
  "wheel0 = \<lparr>spokes = replicate 512 [], doNow = [], curTick = 0,
             granularity = 100000000, w_interval = 1000000000, running = False,
             elems = Map.empty, allocated = 0\<rparr>"

definition entry1 :: "nat Element" where
  "entry1 = \<lparr>in_list = None,
             Value = \<lparr>next_tick = 0x4005, count = 0, number = 1, interval = 1000000000, job = 7\<rparr>\<rparr>"

definition wheel1 :: "nat Wheel" where
  "wheel1 = wheel0\<lparr>elems := [0 \<mapsto> entry1], allocated := 1\<rparr>"

text \<open>The empty wheel owning one element that sits in main-level bucket 10.\<close>

definition entry2 :: "nat Element" where
  "entry2 = \<lparr>in_list = Some (Spoke 10),
             Value = \<lparr>next_tick = 10, count = 0, number = 1, interval = 1000000000, job = 7\<rparr>\<rparr>"

definition wheel2 :: "nat Wheel" where
  "wheel2 = wheel0\<lparr>spokes := (replicate 512 [])[10 := [0]], elems := [0 \<mapsto> entry2],
                   allocated := 1\<rparr>"

text \<open>Two elements in the due-now list of the empty wheel, as two calls of AddJob with
  an interval of 0 leave them: a one-shot entry (target count 1, job 0) and a persistent
  one (target count 0, job 1); and the same two in the other order.\<close>

definition oneshot :: "nat Element" where
  "oneshot = \<lparr>in_list = Some DoNow,
              Value = \<lparr>next_tick = 0, count = 0, number = 1, interval = 0, job = 0\<rparr>\<rparr>"

definition persist :: "nat Element" where
  "persist = \<lparr>in_list = Some DoNow,
              Value = \<lparr>next_tick = 0, count = 0, number = 0, interval = 0, job = 1\<rparr>\<rparr>"

definition wheel3 :: "nat Wheel" where
  "wheel3 = wheel0\<lparr>doNow := [0, 1], elems := [0 \<mapsto> oneshot, 1 \<mapsto> persist], allocated := 2\<rparr>"

definition wheel3p :: "nat Wheel" where
  "wheel3p = wheel3\<lparr>doNow := [1, 0]\<rparr>"

text \<open>A behaviour of the jobs: job 0 panics, every other job returns and leaves the
  wheel alone.\<close>

definition panics0 :: "nat \<Rightarrow> nat Wheel \<Rightarrow> error + nat Wheel" where
  "panics0 j sf = (if j = 0 then Inl JobPanic else Inr sf)"

text \<open>The empty wheel at tick \<open>0x3FFF\<close>, and the same wheel after an AddJob with an
  interval of \<open>0x4000\<close> ticks: one entry due at tick \<open>0x7FFF\<close>, in level 1, slot 1
  (index 321).\<close>

definition wheel_3fff :: "nat Wheel" where
  "wheel_3fff = wheel0\<lparr>curTick := 0x3FFF\<rparr>"

definition far_entry :: "nat Element" where
  "far_entry = \<lparr>in_list = Some (Spoke 321),
                Value = \<lparr>next_tick = 0x7FFF, count = 0, number = 1,
                         interval = 1638400000000, job = 0\<rparr>\<rparr>"

definition wheel4 :: "nat Wheel" where
  "wheel4 = wheel_3fff\<lparr>spokes := (replicate 512 [])[321 := [0]],
                       elems := [0 \<mapsto> far_entry], allocated := 1\<rparr>"

text \<open>The wheel at tick \<open>0x3FFF\<close> after an AddJob with an interval of \<open>0xC001\<close> ticks: one
  entry due at tick \<open>0x10000\<close>, in level 1, slot 4 (index 324).\<close>

definition stuck_entry :: "nat Element" where
  "stuck_entry = \<lparr>in_list = Some (Spoke 324),
                  Value = \<lparr>next_tick = 0x10000, count = 0, number = 1,
                           interval = 4915300000000, job = 0\<rparr>\<rparr>"

definition wheel5 :: "nat Wheel" where
  "wheel5 = wheel_3fff\<lparr>spokes := (replicate 512 [])[324 := [0]],
                       elems := [0 \<mapsto> stuck_entry], allocated := 1\<rparr>"

section \<open>Slot addressing: bounds and the placement rule\<close>

lemmas tv_defs = tvRBits_def tvNBits_def tvNNum_def tvRSize_def tvNSize_def tvRMask_def tvNMask_def

lemma slots_512: "tvRSize + tvNSize * tvNNum = 512"
  by (simp add: tv_defs)

text \<open>\<open>wheel0\<close> is the wheel \<open>NewWheel\<close> builds at the epoch with a granularity of
  100 ms and a default interval of 1 s.\<close>

lemma NewWheel_wheel0: "NewWheel 100000000 1000000000 0 = Inr wheel0"
  by (simp add: NewWheel_def div64_def wheel0_def tv_defs)

lemma level_loop_le: "level \<le> 3 \<Longrightarrow> level_loop idx level \<le> 3"
proof (induction idx level rule: level_loop.induct)
  case (1 idx level)
  show ?case
  proof (cases "idx \<ge> of_nat tvNSize \<and> level < tvNNum - 1")
    case True
    then have "level + 1 \<le> 3" by (simp add: tvNNum_def)
    then have "level_loop (drop_bit tvNBits idx) (level + 1) \<le> 3"
      using True by (rule "1.IH"[rotated])
    moreover have "level_loop idx level = level_loop (drop_bit tvNBits idx) (level + 1)"
      using True by (subst level_loop.simps) simp
    ultimately show ?thesis by simp
  next
    case False
    then have "level_loop idx level = level"
      by (subst level_loop.simps) auto
    with "1.prems" show ?thesis by simp
  qed
qed

lemma mask_bound63: "unat ((w :: uint32) AND 63) < 64"
proof -
  have "w AND 63 \<le> 63" by (rule word_and_le1)
  then have "unat (w AND 63) \<le> unat (63 :: uint32)" by (simp only: word_le_nat_alt)
  then show ?thesis by simp
qed

lemma mask_bound255: "unat ((w :: uint32) AND 255) < 256"
proof -
  have "w AND 255 \<le> 255" by (rule word_and_le1)
  then have "unat (w AND 255) \<le> unat (255 :: uint32)" by (simp only: word_le_nat_alt)
  then show ?thesis by simp
qed

lemma spokeIdx_bound: "spokeIdx nxt cur < 512"
proof -
  have l: "level_loop (drop_bit 8 (nxt - cur)) 0 \<le> 3" by (rule level_loop_le) simp
  show ?thesis
    using l mask_bound63[of "drop_bit (8 + 6 * level_loop (drop_bit 8 (nxt - cur)) 0) nxt"]
      mask_bound255[of nxt]
    by (simp add: spokeIdx_def Let_def tv_defs)
qed

lemma level_loop_spec: "level_loop (drop_bit tvRBits delta) 0 = spec_level delta"
  apply (subst level_loop.simps)
  apply (subst level_loop.simps)
  apply (subst level_loop.simps)
  apply (subst level_loop.simps)
  apply (simp add: tv_defs spec_level_def not_le not_less)
  done

lemma spokeIdx_spec: "spokeIdx nxt cur = spec_slot nxt cur"
  using level_loop_spec[of "nxt - cur"]
  by (simp add: spokeIdx_def spec_slot_def Let_def tv_defs)

lemma addTimer_eq:
  assumes "elems sf e = Some el" and "length (spokes sf) = tvRSize + tvNSize * tvNNum"
  shows "addTimer e sf
         = Inr (PushElementBack (Spoke (spokeIdx (next_tick (Value el)) (curTick sf))) e sf)"
  using assms spokeIdx_bound[of "next_tick (Value el)" "curTick sf"]
  by (simp add: addTimer_def entry_def spoke_at_def slots_512)

lemma PushElementBack_Spoke:
  assumes "elems sf e = Some el"
  shows "spokes (PushElementBack (Spoke i) e sf) = (spokes sf)[i := spokes sf ! i @ [e]]"
    and "doNow (PushElementBack (Spoke i) e sf) = doNow sf"
    and "curTick (PushElementBack (Spoke i) e sf) = curTick sf"
    and "elems (PushElementBack (Spoke i) e sf) = (elems sf)(e \<mapsto> el\<lparr>in_list := Some (Spoke i)\<rparr>)"
  using assms by (simp_all add: PushElementBack_def upd_elem_def set_list_def get_list_def)

text \<open>Claim C1. Bucket placement: for an entry with deadline tick \<open>next\<close> on a wheel at
  tick \<open>curTick\<close> (a wheel with its 512 buckets, an allocated element), addTimer
  succeeds and pushes the element to the back of exactly one bucket, the one section 4.3
  names: with \<open>delta = next - curTick\<close> in wrapping 32-bit arithmetic, main-level slot
  \<open>next & 0xFF\<close> when \<open>delta < 256\<close>, otherwise index
  \<open>256 + 64 * L + ((next >> (8 + 6 * L)) & 0x3F)\<close> for the first level \<open>L\<close> of 0..3 at
  which the shifted delta is below 64, level 3 taking the rest. The due-now list and the
  current tick are unchanged, and the element records the bucket it is in.\<close>

theorem addTimer_placement:
  assumes "elems sf e = Some el" and "length (spokes sf) = tvRSize + tvNSize * tvNNum"
  shows "\<exists>sf'. addTimer e sf = Inr sf'
           \<and> spokes sf' = (spokes sf)[spec_slot (next_tick (Value el)) (curTick sf) :=
                              spokes sf ! spec_slot (next_tick (Value el)) (curTick sf) @ [e]]
           \<and> doNow sf' = doNow sf \<and> curTick sf' = curTick sf
           \<and> elems sf' = (elems sf)(e \<mapsto>
                 el\<lparr>in_list := Some (Spoke (spec_slot (next_tick (Value el)) (curTick sf)))\<rparr>)"
  using addTimer_eq[OF assms] PushElementBack_Spoke[OF assms(1)]
  by (simp add: spokeIdx_spec)

theorem addTimer_placement_witness:
  "elems wheel1 0 = Some entry1 \<and> length (spokes wheel1) = tvRSize + tvNSize * tvNNum
   \<and> spec_slot 0x4005 0 = 321
   \<and> (\<exists>sf'. addTimer 0 wheel1 = Inr sf'
           \<and> spokes sf' = (replicate 512 [])[321 := [0]]
           \<and> doNow sf' = [] \<and> curTick sf' = 0
           \<and> elems sf' = [0 \<mapsto> entry1\<lparr>in_list := Some (Spoke 321)\<rparr>])"
proof -
  have h1: "elems wheel1 0 = Some entry1" by (simp add: wheel1_def)
  have h2: "length (spokes wheel1) = tvRSize + tvNSize * tvNNum"
    by (simp add: wheel1_def wheel0_def tv_defs)
  have s: "spec_slot 0x4005 0 = 321"
    by (simp add: spec_slot_def spec_level_def Let_def)
  show ?thesis
    using addTimer_placement[OF h1 h2] h1 h2 s
    by (simp add: wheel1_def wheel0_def entry1_def)
qed

text \<open>Claim C10. Slot-index totality: for every 32-bit deadline and every 32-bit
  current tick the index addTimer computes is below 512 (the level is capped at 3), so on
  a wheel with its 512 buckets the index expression \<open>sf.spokes[spokeIdx]\<close> is in range
  and addTimer returns for every allocated element.\<close>

theorem addTimer_total:
  "spokeIdx nxt cur < 512
   \<and> (length (spokes sf) = tvRSize + tvNSize * tvNNum \<longrightarrow> elems sf e = Some el \<longrightarrow>
        spoke_at (spokeIdx (next_tick (Value el)) (curTick sf)) sf
          = Inr (Spoke (spokeIdx (next_tick (Value el)) (curTick sf)))
        \<and> (\<exists>sf'. addTimer e sf = Inr sf'))"
  using spokeIdx_bound[of "next_tick (Value el)" "curTick sf"] spokeIdx_bound[of nxt cur]
  by (simp add: addTimer_def entry_def spoke_at_def slots_512)

theorem addTimer_total_witness:
  "spokeIdx 0 1 = 448 \<and> spokeIdx 0 1 < 512
   \<and> length (spokes wheel1) = tvRSize + tvNSize * tvNNum \<and> elems wheel1 0 = Some entry1
   \<and> spoke_at 321 wheel1 = Inr (Spoke 321)
   \<and> (\<exists>sf'. addTimer 0 wheel1 = Inr sf')"
proof -
  have h1: "elems wheel1 0 = Some entry1" by (simp add: wheel1_def)
  have h2: "length (spokes wheel1) = tvRSize + tvNSize * tvNNum"
    by (simp add: wheel1_def wheel0_def tv_defs)
  have s: "spokeIdx 0 1 = 448" by code_simp
  have t: "spokeIdx 0x4005 0 = 321" by code_simp
  have c: "curTick wheel1 = 0" "next_tick (Value entry1) = 0x4005"
    by (simp_all add: wheel1_def wheel0_def entry1_def)
  show ?thesis
    using addTimer_total[of 0 1 wheel1 0 entry1] h1 h2 s t c
    by simp
qed

section \<open>Deadline computation\<close>

lemma ucast_woi: "(ucast (word_of_int q :: int64) :: uint32) = word_of_int q"
  apply (rule bit_word_eqI) 
  apply (simp add: bit_simps)
  done

lemma sdiv_nonneg: "0 \<le> (s::int) \<Longrightarrow> 0 < g \<Longrightarrow> s sdiv g = s div g"
  by (simp add: signed_divide_int_def sgn_if)

lemma ceil_least:
  fixes g x k :: int
  assumes g: "0 < g"
  shows "(x \<le> k * g) = ((x + g - 1) div g \<le> k)"
proof
  assume "x \<le> k * g"
  then have "x + g - 1 \<le> (g - 1) + k * g" by simp
  then have "(x + g - 1) div g \<le> ((g - 1) + k * g) div g"
    using g by (rule zdiv_mono1)
  also have "((g - 1) + k * g) div g = k"
    using g by (simp add: div_pos_pos_trivial)
  finally show "(x + g - 1) div g \<le> k" .
next
  assume q: "(x + g - 1) div g \<le> k"
  have "x + g - 1 = (x + g - 1) div g * g + (x + g - 1) mod g" by simp
  moreover have "(x + g - 1) mod g < g" using g by simp
  moreover have "(x + g - 1) div g * g \<le> k * g"
    using q g by (simp add: mult_right_mono)
  ultimately show "x \<le> k * g" by linarith
qed

lemma sint_sum64:
  fixes a b g :: int64
  shows "sint (a + b + g - 1) = signed_take_bit 63 (sint a + sint b + sint g - 1)"
proof -
  have "a + b + g - 1 = word_of_int (sint a + sint b + sint g - 1)" by simp
  then show ?thesis by (simp only: sint_sbintrunc') simp
qed

lemma sint_sum64_exact:
  fixes a b g :: int64
  assumes "- (2 ^ 63) \<le> sint a + sint b + sint g - 1"
    and "sint a + sint b + sint g - 1 < 2 ^ 63"
  shows "sint (a + b + g - 1) = sint a + sint b + sint g - 1"
  using assms by (simp only: sint_sum64) (simp add: signed_take_bit_int_eq_self)

lemma nextTimeout_exact:
  assumes g: "0 < sint (granularity sf)"
    and lo: "0 \<le> sint nowNano + sint timeout + sint (granularity sf) - 1"
    and hi: "sint nowNano + sint timeout + sint (granularity sf) - 1 < 2 ^ 63"
  shows "nextTimeout sf nowNano timeout
         = Inr (spec_nextDeadline (sint (granularity sf)) (sint nowNano) (sint timeout))"
proof -
  have nz: "granularity sf \<noteq> 0" using g by auto
  have s: "sint (nowNano + timeout + granularity sf - 1)
           = sint nowNano + sint timeout + sint (granularity sf) - 1"
    using lo hi by (intro sint_sum64_exact) simp_all
  show ?thesis
    using nz g lo
    by (simp add: nextTimeout_def div64_def s sdiv_nonneg ucast_woi spec_nextDeadline_def)
qed

text \<open>Claim C6, amended. Deadline computation: on a wheel with a positive granularity,
  for every \<open>nowNano\<close> and \<open>timeout\<close> whose sum \<open>nowNano + timeout + granularity - 1\<close>
  is non-negative and below \<open>2 ^ 63\<close>, nextTimeout returns
  \<open>floor((nowNano + timeout + granularity - 1) / granularity)\<close> reduced modulo \<open>2 ^ 32\<close>,
  and that quotient is the smallest tick index \<open>k\<close> with
  \<open>nowNano + timeout \<le> k * granularity\<close> (the ceiling division).\<close>

theorem nextTimeout_ceiling:
  assumes "0 < sint (granularity sf)"
    and "0 \<le> sint nowNano + sint timeout + sint (granularity sf) - 1"
    and "sint nowNano + sint timeout + sint (granularity sf) - 1 < 2 ^ 63"
  shows "nextTimeout sf nowNano timeout
         = Inr (spec_nextDeadline (sint (granularity sf)) (sint nowNano) (sint timeout))
       \<and> (\<forall>k. (sint nowNano + sint timeout \<le> k * sint (granularity sf))
              = ((sint nowNano + sint timeout + sint (granularity sf) - 1)
                   div sint (granularity sf) \<le> k))"
  using nextTimeout_exact[OF assms] ceil_least[OF assms(1)] by simp

theorem nextTimeout_ceiling_witness:
  "0 < sint (granularity wheel0)
   \<and> 0 \<le> sint (1000000050 :: int64) + sint (1000000000 :: int64) + sint (granularity wheel0) - 1
   \<and> sint (1000000050 :: int64) + sint (1000000000 :: int64) + sint (granularity wheel0) - 1 < 2 ^ 63
   \<and> nextTimeout wheel0 1000000050 1000000000 = Inr 21
   \<and> (\<forall>k. (2000000050 \<le> k * (100000000 :: int)) = (21 \<le> k))"
proof -
  have h1: "0 < sint (granularity wheel0)" by (simp add: wheel0_def)
  have h2: "0 \<le> sint (1000000050 :: int64) + sint (1000000000 :: int64) + sint (granularity wheel0) - 1"
    by (simp add: wheel0_def)
  have h3: "sint (1000000050 :: int64) + sint (1000000000 :: int64) + sint (granularity wheel0) - 1 < 2 ^ 63"
    by (simp add: wheel0_def)
  show ?thesis
    using nextTimeout_ceiling[OF h1 h2 h3] h1 h2 h3
    by (simp add: wheel0_def spec_nextDeadline_def)
qed

text \<open>Claim C6 as stated fails where the sum is negative: Go's \<open>/\<close> rounds towards
  zero, not down. With a granularity of 100 ms, \<open>nowNano = 0\<close> and a timeout of -250 ms
  the sum is \<open>-150000001\<close>; nextTimeout returns \<open>uint32(-1)\<close>, the floor is \<open>-2\<close>.\<close>

theorem nextTimeout_floor_counterexample:
  "nextTimeout wheel0 0 (- 250000000) = Inr 4294967295
   \<and> spec_nextDeadline (sint (granularity wheel0)) (sint (0 :: int64)) (sint (- 250000000 :: int64))
       = 4294967294
   \<and> nextTimeout wheel0 0 (- 250000000)
       \<noteq> Inr (spec_nextDeadline (sint (granularity wheel0)) (sint (0 :: int64))
                 (sint (- 250000000 :: int64)))"
proof -
  have u: "(ucast (- 1 :: int64) :: uint32) = - 1"
    using ucast_woi[of "- 1"] by simp
  show ?thesis
    by (simp add: nextTimeout_def div64_def wheel0_def spec_nextDeadline_def
        signed_divide_int_def u)
qed

section \<open>AddJob, Delete and Modify\<close>

lemma nextTimeout_frame [simp]:
  "nextTimeout (sf\<lparr>elems := m, allocated := a\<rparr>) nowNano timeout = nextTimeout sf nowNano timeout"
  "nextTimeout (upd_entry e f sf) nowNano timeout = nextTimeout sf nowNano timeout"
  by (simp_all add: nextTimeout_def upd_entry_def upd_elem_def split: option.splits)

lemma nextTimeout_Inr:
  "granularity sf \<noteq> 0 \<Longrightarrow> \<exists>t. nextTimeout sf nowNano timeout = Inr t"
  by (simp add: nextTimeout_def div64_def)

lemma PushElementBack_DoNow:
  assumes "elems sf e = Some el"
  shows "spokes (PushElementBack DoNow e sf) = spokes sf"
    and "doNow (PushElementBack DoNow e sf) = doNow sf @ [e]"
    and "curTick (PushElementBack DoNow e sf) = curTick sf"
    and "elems (PushElementBack DoNow e sf) = (elems sf)(e \<mapsto> el\<lparr>in_list := Some DoNow\<rparr>)"
  using assms by (simp_all add: PushElementBack_def upd_elem_def set_list_def get_list_def)

lemma AddJob_immediate:
  assumes "nextTimeout sf now (if length ivs > 0 then hd ivs else w_interval sf) = Inr t"
    and "t = curTick sf"
  shows "\<exists>sf'. AddJob now jb num ivs sf = Inr (allocated sf, sf')
           \<and> doNow sf' = doNow sf @ [allocated sf] \<and> spokes sf' = spokes sf
           \<and> curTick sf' = curTick sf
           \<and> map_option in_list (elems sf' (allocated sf)) = Some (Some DoNow)"
  using assms
  by (simp add: AddJob_def NewJob_def Let_def entry_def upd_entry_def upd_elem_def
      PushElementBack_def set_list_def get_list_def)

lemma AddJob_placed:
  assumes "nextTimeout sf now (if length ivs > 0 then hd ivs else w_interval sf) = Inr t"
    and "t \<noteq> curTick sf"
    and "length (spokes sf) = tvRSize + tvNSize * tvNNum"
  shows "\<exists>sf'. AddJob now jb num ivs sf = Inr (allocated sf, sf')
           \<and> doNow sf' = doNow sf
           \<and> spokes sf' = (spokes sf)[spec_slot t (curTick sf) :=
                              spokes sf ! spec_slot t (curTick sf) @ [allocated sf]]
           \<and> curTick sf' = curTick sf
           \<and> map_option in_list (elems sf' (allocated sf))
               = Some (Some (Spoke (spec_slot t (curTick sf))))"
  using assms spokeIdx_bound[of t "curTick sf"]
  by (simp add: AddJob_def NewJob_def Let_def entry_def upd_entry_def upd_elem_def
      addTimer_def spoke_at_def slots_512 spokeIdx_spec
      PushElementBack_def set_list_def get_list_def)

text \<open>Claim C7. Immediate-due routing in AddJob: on a wheel with its 512 buckets and a
  non-zero granularity, AddJob returns the handle of the new element, and when the
  deadline nextTimeout computes equals the current tick the element is pushed onto the
  back of the due-now list and no bucket of the slot array changes (the new handle is
  in none of them, handles in buckets being older than the allocation); otherwise the
  element goes to the back of the bucket the placement rule names and the due-now list
  is unchanged.\<close>

theorem AddJob_routing:
  assumes "granularity sf \<noteq> 0"
    and "length (spokes sf) = tvRSize + tvNSize * tvNNum"
  shows "\<exists>t sf'. nextTimeout sf now (if length ivs > 0 then hd ivs else w_interval sf) = Inr t
           \<and> AddJob now jb num ivs sf = Inr (allocated sf, sf')
           \<and> curTick sf' = curTick sf
           \<and> (t = curTick sf \<longrightarrow>
                 doNow sf' = doNow sf @ [allocated sf] \<and> spokes sf' = spokes sf
                 \<and> map_option in_list (elems sf' (allocated sf)) = Some (Some DoNow)
                 \<and> ((\<forall>l \<in> set (spokes sf). \<forall>h \<in> set l. h < allocated sf)
                      \<longrightarrow> (\<forall>l \<in> set (spokes sf'). allocated sf \<notin> set l)))
           \<and> (t \<noteq> curTick sf \<longrightarrow>
                 doNow sf' = doNow sf
                 \<and> spokes sf' = (spokes sf)[spec_slot t (curTick sf) :=
                                    spokes sf ! spec_slot t (curTick sf) @ [allocated sf]]
                 \<and> map_option in_list (elems sf' (allocated sf))
                     = Some (Some (Spoke (spec_slot t (curTick sf)))))"
proof -
  obtain t where t: "nextTimeout sf now (if length ivs > 0 then hd ivs else w_interval sf) = Inr t"
    using nextTimeout_Inr[OF assms(1)] by blast
  show ?thesis
  proof (cases "t = curTick sf")
    case True
    from AddJob_immediate[OF t True, of jb num] obtain sf' where
      "AddJob now jb num ivs sf = Inr (allocated sf, sf')"
      "doNow sf' = doNow sf @ [allocated sf]" "spokes sf' = spokes sf"
      "curTick sf' = curTick sf"
      "map_option in_list (elems sf' (allocated sf)) = Some (Some DoNow)"
      by blast
    with t True show ?thesis by fastforce
  next
    case False
    from AddJob_placed[OF t False assms(2), of jb num] obtain sf' where
      "AddJob now jb num ivs sf = Inr (allocated sf, sf')"
      "doNow sf' = doNow sf"
      "spokes sf' = (spokes sf)[spec_slot t (curTick sf) :=
                              spokes sf ! spec_slot t (curTick sf) @ [allocated sf]]"
      "curTick sf' = curTick sf"
      "map_option in_list (elems sf' (allocated sf))
               = Some (Some (Spoke (spec_slot t (curTick sf))))"
      by blast
    with t False show ?thesis by fastforce
  qed
qed

theorem AddJob_routing_witness:
  "granularity wheel0 \<noteq> 0 \<and> length (spokes wheel0) = tvRSize + tvNSize * tvNNum
   \<and> nextTimeout wheel0 0 0 = Inr (curTick wheel0)
   \<and> (\<exists>sf'. AddJob 0 7 1 [0] wheel0 = Inr (0, sf')
          \<and> doNow sf' = [0] \<and> spokes sf' = replicate 512 []
          \<and> map_option in_list (elems sf' 0) = Some (Some DoNow))
   \<and> nextTimeout wheel0 0 1000000000 = Inr 10 \<and> spec_slot 10 0 = 10
   \<and> (\<exists>sf'. AddJob 0 7 1 [1000000000] wheel0 = Inr (0, sf')
          \<and> doNow sf' = [] \<and> spokes sf' = (replicate 512 [])[10 := [0]]
          \<and> map_option in_list (elems sf' 0) = Some (Some (Spoke 10)))"
proof -
  have h1: "granularity wheel0 \<noteq> 0" by (simp add: wheel0_def)
  have h2: "length (spokes wheel0) = tvRSize + tvNSize * tvNNum"
    by (simp add: wheel0_def tv_defs)
  have t1: "nextTimeout wheel0 0 0 = Inr (curTick wheel0)"
    by (simp add: nextTimeout_def div64_def wheel0_def signed_divide_int_def)
  have t2: "nextTimeout wheel0 0 1000000000 = Inr 10"
    by (simp add: nextTimeout_def div64_def wheel0_def signed_divide_int_def)
  have s: "spec_slot 10 0 = 10" by (simp add: spec_slot_def)
  have c: "curTick wheel0 = 0" "doNow wheel0 = []" "spokes wheel0 = replicate 512 []"
    "allocated wheel0 = 0"
    by (simp_all add: wheel0_def)
  have a: "\<exists>sf'. AddJob 0 7 1 [0] wheel0 = Inr (0, sf')
          \<and> doNow sf' = [0] \<and> spokes sf' = replicate 512 []
          \<and> map_option in_list (elems sf' 0) = Some (Some DoNow)"
    using AddJob_routing[OF h1 h2, of 0 "[0]" 7 1] t1 c by auto
  have b: "\<exists>sf'. AddJob 0 7 1 [1000000000] wheel0 = Inr (0, sf')
          \<and> doNow sf' = [] \<and> spokes sf' = (replicate 512 [])[10 := [0]]
          \<and> map_option in_list (elems sf' 0) = Some (Some (Spoke 10))"
    using AddJob_routing[OF h1 h2, of 0 "[1000000000]" 7 1] t2 c s by auto
  from h1 h2 t1 t2 s a b show ?thesis by blast
qed

lemma RemoveSelf_detached:
  "RemoveSelf e sf = Inr sf1 \<Longrightarrow> \<exists>el. elems sf1 e = Some el \<and> in_list el = None"
  by (auto simp: RemoveSelf_def upd_elem_def set_list_def split: option.splits listref.splits)

lemma RemoveSelf_noop:
  "elems sf e = Some el \<Longrightarrow> in_list el = None \<Longrightarrow> RemoveSelf e sf = Inr sf"
  by (simp add: RemoveSelf_def)

lemma RemoveSelf_ok:
  "elems sf e = Some el \<Longrightarrow> \<exists>sf1. RemoveSelf e sf = Inr sf1"
  by (simp add: RemoveSelf_def split: option.splits)

text \<open>Claim C8. Delete idempotence: a Delete that returns leaves a wheel on which a
  second Delete returns that same wheel; Delete returns for every allocated handle (no
  fault); and Delete of a detached element (one that is in no bucket nor in the due-now
  list: \<open>in_list = None\<close>, as for an element NewJob just made or one already removed)
  returns the wheel unchanged: every bucket, the due-now list and the current tick.\<close>

theorem Delete_idempotent:
  "(Delete e sf = Inr sf1 \<longrightarrow> Delete e sf1 = Inr sf1)
   \<and> (elems sf e = Some el \<longrightarrow> (\<exists>sf2. Delete e sf = Inr sf2))
   \<and> (elems sf e = Some el \<longrightarrow> in_list el = None \<longrightarrow> Delete e sf = Inr sf)
   \<and> (Delete (fst (NewJob jb num ivs sf)) (snd (NewJob jb num ivs sf))
        = Inr (snd (NewJob jb num ivs sf)))"
proof -
  have a: "Delete e sf = Inr sf1 \<longrightarrow> Delete e sf1 = Inr sf1"
    unfolding Delete_def using RemoveSelf_detached RemoveSelf_noop by blast
  have b: "elems sf e = Some el \<longrightarrow> (\<exists>sf2. Delete e sf = Inr sf2)"
    unfolding Delete_def using RemoveSelf_ok by blast
  have c: "elems sf e = Some el \<longrightarrow> in_list el = None \<longrightarrow> Delete e sf = Inr sf"
    unfolding Delete_def using RemoveSelf_noop by blast
  have d: "Delete (fst (NewJob jb num ivs sf)) (snd (NewJob jb num ivs sf))
        = Inr (snd (NewJob jb num ivs sf))"
    by (simp add: Delete_def RemoveSelf_def NewJob_def Let_def)
  from a b c d show ?thesis by blast
qed

theorem Delete_idempotent_witness:
  "elems wheel2 0 = Some entry2
   \<and> (\<exists>sf1. Delete 0 wheel2 = Inr sf1 \<and> Delete 0 sf1 = Inr sf1)
   \<and> elems wheel1 0 = Some entry1 \<and> in_list entry1 = None
   \<and> Delete 0 wheel1 = Inr wheel1"
proof -
  have h: "elems wheel2 0 = Some entry2" by (simp add: wheel2_def)
  have k: "elems wheel1 0 = Some entry1" "in_list entry1 = None"
    by (simp_all add: wheel1_def entry1_def)
  from Delete_idempotent[of 0 wheel2 _ entry2] h
  obtain sf1 where d: "Delete 0 wheel2 = Inr sf1" by blast
  with Delete_idempotent[of 0 wheel2 sf1] have "Delete 0 sf1 = Inr sf1" by blast
  moreover from Delete_idempotent[of 0 wheel1 _ entry1] k
  have "Delete 0 wheel1 = Inr wheel1" by blast
  ultimately show ?thesis using h k d by blast
qed

text \<open>Claim C9. Modify is a no-op: for every wheel, handle and interval the wheel that
  Modify returns is the wheel it was given, with all buckets, the due-now list, the
  current tick, the running flag and every field of every entry (the store \<open>elems\<close> is
  part of the state) unchanged.\<close>

theorem Modify_noop: "Modify e ivl sf = sf"
  by (simp add: Modify_def)

section \<open>The drain loop\<close>

lemma fire_repeat:
  assumes "doNow sf = e # rest" and "elems sf e = Some el"
    and "length (spokes sf) = tvRSize + tvNSize * tvNNum"
    and "nextTimeout sf nano (interval (Value el)) = Inr t"
    and "number (Value el) = 0 \<or> count (Value el) + 1 < number (Value el)"
  shows "fire nano sf
         = Inr (e, sf\<lparr>doNow := rest,
                      spokes := (spokes sf)[spec_slot t (curTick sf) :=
                                   spokes sf ! spec_slot t (curTick sf) @ [e]],
                      elems := (elems sf)(e \<mapsto>
                        el\<lparr>Value := (Value el)\<lparr>count := count (Value el) + 1,
                                                next_tick := t\<rparr>,
                           in_list := Some (Spoke (spec_slot t (curTick sf)))\<rparr>)\<rparr>)"
  using assms spokeIdx_bound[of t "curTick sf"]
  by (auto simp add: fire_def PopFront_def get_list_def set_list_def upd_elem_def upd_entry_def
      entry_def Let_def addTimer_def spoke_at_def PushElementBack_def slots_512 spokeIdx_spec
      nextTimeout_def)

lemma fire_drop:
  assumes "doNow sf = e # rest" and "elems sf e = Some el"
    and "\<not> (number (Value el) = 0 \<or> count (Value el) + 1 < number (Value el))"
  shows "fire nano sf
         = Inr (e, sf\<lparr>doNow := rest,
                      elems := (elems sf)(e \<mapsto>
                        el\<lparr>in_list := None,
                           Value := (Value el)\<lparr>count := count (Value el) + 1\<rparr>\<rparr>)\<rparr>)"
  using assms
  by (auto simp add: fire_def PopFront_def get_list_def set_list_def upd_elem_def upd_entry_def
      entry_def Let_def)

lemma count_below:
  fixes c n :: uint32
  assumes "unat c < unat n"
  shows "(c + 1 < n) = (unat c + 1 < unat n)"
proof -
  have "unat n < 2 ^ 32" using unsigned_less[of n] by simp
  with assms have "unat c + 1 < 2 ^ 32" by simp
  then have "unat (c + 1) = unat c + 1"
    by (simp add: unat_word_ariths)
  then show ?thesis by (simp add: word_less_nat_alt)
qed

text \<open>The rule of the drain loop for one due entry: popping the entry at the front of
  the due-now list (on a wheel with its 512 buckets and a non-zero granularity)
  increments its fired count exactly once; the entry is re-placed, at the bucket the
  placement rule gives for the deadline nextTimeout computes from the wake-up time, if
  and only if its target count is 0 or the incremented fired count is below the target
  count; otherwise it stays detached, no bucket changes and only its fired count has
  changed. An entry with target count \<open>N \<ge> 1\<close> that has fired \<open>c < N\<close> times is re-placed
  by its next firing exactly when \<open>c + 1 < N\<close>.\<close>

lemma fire_repeat_semantics:
  assumes "doNow sf = e # rest" and "elems sf e = Some el"
    and "length (spokes sf) = tvRSize + tvNSize * tvNNum"
    and "granularity sf \<noteq> 0"
  shows "\<exists>sf' el'. fire nano sf = Inr (e, sf') \<and> doNow sf' = rest \<and> elems sf' e = Some el'
           \<and> count (Value el') = count (Value el) + 1
           \<and> number (Value el') = number (Value el)
           \<and> ((in_list el' \<noteq> None)
                = (number (Value el) = 0 \<or> count (Value el) + 1 < number (Value el)))
           \<and> (in_list el' \<noteq> None \<longrightarrow>
                 (\<exists>t. nextTimeout sf nano (interval (Value el)) = Inr t
                      \<and> next_tick (Value el') = t
                      \<and> in_list el' = Some (Spoke (spec_slot t (curTick sf)))
                      \<and> spokes sf' = (spokes sf)[spec_slot t (curTick sf) :=
                                         spokes sf ! spec_slot t (curTick sf) @ [e]]))
           \<and> (in_list el' = None \<longrightarrow>
                 spokes sf' = spokes sf
                 \<and> Value el' = (Value el)\<lparr>count := count (Value el) + 1\<rparr>)
           \<and> (number (Value el) = 0 \<longrightarrow> in_list el' \<noteq> None)
           \<and> (unat (count (Value el)) < unat (number (Value el)) \<longrightarrow>
                 (in_list el' \<noteq> None)
                 = (unat (count (Value el)) + 1 < unat (number (Value el))))"
proof (cases "number (Value el) = 0 \<or> count (Value el) + 1 < number (Value el)")
  case True
  obtain t where t: "nextTimeout sf nano (interval (Value el)) = Inr t"
    using nextTimeout_Inr[OF assms(4)] by blast
  have lt: "unat (count (Value el)) < unat (number (Value el)) \<Longrightarrow>
            unat (count (Value el)) + 1 < unat (number (Value el))"
    using True count_below[of "count (Value el)" "number (Value el)"] by auto
  show ?thesis
    using fire_repeat[OF assms(1,2,3) t True] t True lt by auto
next
  case False
  have lt: "unat (count (Value el)) < unat (number (Value el)) \<Longrightarrow>
            \<not> unat (count (Value el)) + 1 < unat (number (Value el))"
    using False count_below[of "count (Value el)" "number (Value el)"] by auto
  show ?thesis
    using fire_drop[OF assms(1,2) False, of nano] False lt by auto
qed

lemma fire_repeat_semantics_example:
  "doNow wheel3 = [0, 1] \<and> elems wheel3 0 = Some oneshot
   \<and> doNow wheel3p = [1, 0] \<and> elems wheel3p 1 = Some persist
   \<and> length (spokes wheel3) = tvRSize + tvNSize * tvNNum \<and> granularity wheel3 \<noteq> 0
   \<and> length (spokes wheel3p) = tvRSize + tvNSize * tvNNum \<and> granularity wheel3p \<noteq> 0
   \<and> (\<exists>sf' el'. fire 0 wheel3 = Inr (0, sf') \<and> doNow sf' = [1] \<and> elems sf' 0 = Some el'
          \<and> count (Value el') = 1 \<and> in_list el' = None \<and> spokes sf' = replicate 512 [])
   \<and> (\<exists>sf' el'. fire 0 wheel3p = Inr (1, sf') \<and> doNow sf' = [0] \<and> elems sf' 1 = Some el'
          \<and> count (Value el') = 1 \<and> in_list el' = Some (Spoke 0)
          \<and> next_tick (Value el') = 0 \<and> spokes sf' = (replicate 512 [])[0 := [1]])"
proof -
  have a: "doNow wheel3 = [0, 1]" "elems wheel3 0 = Some oneshot"
    "length (spokes wheel3) = tvRSize + tvNSize * tvNNum" "granularity wheel3 \<noteq> 0"
    by (simp_all add: wheel3_def wheel0_def tv_defs)
  have b: "doNow wheel3p = [1, 0]" "elems wheel3p 1 = Some persist"
    "length (spokes wheel3p) = tvRSize + tvNSize * tvNNum" "granularity wheel3p \<noteq> 0"
    by (simp_all add: wheel3p_def wheel3_def wheel0_def tv_defs)
  have t: "nextTimeout wheel3p 0 0 = Inr 0"
    by (simp add: nextTimeout_def div64_def wheel3p_def wheel3_def wheel0_def
        signed_divide_int_def)
  have s: "spec_slot 0 0 = 0" by (simp add: spec_slot_def)
  have c: "curTick wheel3p = 0" "spokes wheel3p = replicate 512 []"
    "spokes wheel3 = replicate 512 []"
    by (simp_all add: wheel3p_def wheel3_def wheel0_def)
  have v: "number (Value oneshot) = 1" "count (Value oneshot) = 0"
    "number (Value persist) = 0" "count (Value persist) = 0"
    "interval (Value persist) = 0"
    by (simp_all add: oneshot_def persist_def)
  have x: "\<exists>sf' el'. fire 0 wheel3 = Inr (0, sf') \<and> doNow sf' = [1] \<and> elems sf' 0 = Some el'
          \<and> count (Value el') = 1 \<and> in_list el' = None \<and> spokes sf' = replicate 512 []"
    using fire_repeat_semantics[OF a, of 0] v c by auto
  have y: "\<exists>sf' el'. fire 0 wheel3p = Inr (1, sf') \<and> doNow sf' = [0] \<and> elems sf' 1 = Some el'
          \<and> count (Value el') = 1 \<and> in_list el' = Some (Spoke 0)
          \<and> next_tick (Value el') = 0 \<and> spokes sf' = (replicate 512 [])[0 := [1]]"
    using fire_repeat_semantics[OF b, of 0] v c t s by auto
  from a b x y show ?thesis by blast
qed

text \<open>One pass of the drain loop over a single due entry whose job returns and leaves the
  due-now list empty: the entry is fired, its job is run on the wheel as \<open>fire\<close> left it,
  and the loop ends.\<close>

lemma drain_one_due:
  assumes "Len DoNow sf > 0" and "fire nano sf = Inr (e, sf1)"
    and "entry e sf1 = Inr en" and "run (job en) sf1 = Inr sf2" and "doNow sf2 = []"
  shows "drain run nano sf = Some (Inr sf2)"
proof -
  have "drain run nano sf2 = Some (Inr sf2)"
    using assms(5) by (subst drain.simps) (simp add: Len_def get_list_def)
  then show ?thesis
    using assms(1-4) by (subst drain.simps) simp
qed

text \<open>Claim C5, amended. A failing callback is not isolated: when the job of the entry
  at the front of the due-now list panics, the drain loop ends with that panic, after the
  entry's firing was counted and the entry re-placed if it repeats; the entries behind
  it are not processed, and the wake-up pass ends with the panic too, before the timer
  is re-armed.\<close>

theorem callback_panic_propagates:
  assumes "Len DoNow sf > 0" and "fire nano sf = Inr (e, sf1)"
    and "entry e sf1 = Inr en" and "run (job en) sf1 = Inl JobPanic"
  shows "drain run nano sf = Some (Inl JobPanic)
       \<and> (\<forall>sf0 q w. mod64 nano (granularity sf0) = Inr w
             \<and> div64 nano (granularity sf0) = Inr q
             \<and> advance (unat (ucast q - curTick sf0)) sf0 = Some (Inr sf)
            \<longrightarrow> wakeup run nano sf0 = Some (Inl JobPanic))"
proof -
  have d: "drain run nano sf = Some (Inl JobPanic)"
    using assms by (subst drain.simps) simp
  then show ?thesis by (simp add: wakeup_def)
qed

theorem callback_panic_propagates_witness:
  "Len DoNow wheel3 > 0
   \<and> (\<exists>sf1 en. fire 0 wheel3 = Inr (0, sf1) \<and> entry 0 sf1 = Inr en
         \<and> panics0 (job en) sf1 = Inl JobPanic)
   \<and> drain panics0 0 wheel3 = Some (Inl JobPanic)
   \<and> wakeup panics0 0 wheel3 = Some (Inl JobPanic)"
proof -
  have l: "Len DoNow wheel3 > 0" by (simp add: Len_def get_list_def wheel3_def)
  have a: "doNow wheel3 = [0, 1]" "elems wheel3 0 = Some oneshot"
    by (simp_all add: wheel3_def wheel0_def)
  have nr: "\<not> (number (Value oneshot) = 0 \<or> count (Value oneshot) + 1 < number (Value oneshot))"
    by (simp add: oneshot_def)
  define sf1 where "sf1 = wheel3\<lparr>doNow := [1],
      elems := (elems wheel3)(0 \<mapsto> oneshot\<lparr>in_list := None,
                 Value := (Value oneshot)\<lparr>count := count (Value oneshot) + 1\<rparr>\<rparr>)\<rparr>"
  have f: "fire 0 wheel3 = Inr (0, sf1)"
    unfolding sf1_def using fire_drop[OF a nr, of 0] by simp
  have en: "entry 0 sf1 = Inr ((Value oneshot)\<lparr>count := count (Value oneshot) + 1\<rparr>)"
    by (simp add: sf1_def entry_def)
  have p: "panics0 (job ((Value oneshot)\<lparr>count := count (Value oneshot) + 1\<rparr>)) sf1 = Inl JobPanic"
    by (simp add: panics0_def oneshot_def)
  have g: "mod64 0 (granularity wheel3) = Inr 0" "div64 0 (granularity wheel3) = Inr 0"
    by (simp_all add: mod64_def div64_def wheel3_def wheel0_def)
  have adv: "advance (unat (ucast (0 :: int64) - curTick wheel3)) wheel3 = Some (Inr wheel3)"
    by (simp add: wheel3_def wheel0_def)
  from callback_panic_propagates[where run = panics0, OF l f en p] g adv
  have "drain panics0 0 wheel3 = Some (Inl JobPanic)"
    "wakeup panics0 0 wheel3 = Some (Inl JobPanic)"
    by blast+
  with l f en p show ?thesis by blast
qed

text \<open>Claim C5 as stated fails: two calls of AddJob with an interval of 0 on the empty
  wheel leave two due entries; when the first one's job panics, the drain loop does not
  go on to the second entry and return, it ends with the panic.\<close>

theorem callback_panic_counterexample:
  "(\<exists>sf. AddJob 0 0 1 [0] wheel0 = Inr (0, sf) \<and> AddJob 0 1 0 [0] sf = Inr (1, wheel3))
   \<and> drain panics0 0 wheel3 = Some (Inl JobPanic)
   \<and> (\<forall>sf'. drain panics0 0 wheel3 \<noteq> Some (Inr sf'))"
proof -
  have t: "nextTimeout wheel0 0 0 = Inr 0"
    by (simp add: nextTimeout_def div64_def wheel0_def signed_divide_int_def)
  have a1: "AddJob 0 0 1 [0] wheel0
            = Inr (0, wheel0\<lparr>doNow := [0], elems := [0 \<mapsto> oneshot], allocated := 1\<rparr>)"
    apply (simp add: AddJob_def NewJob_def Let_def entry_def t)
    apply (simp add: upd_entry_def upd_elem_def PushElementBack_def set_list_def get_list_def
        wheel0_def oneshot_def)
    done
  have a2: "AddJob 0 1 0 [0] (wheel0\<lparr>doNow := [0], elems := [0 \<mapsto> oneshot], allocated := 1\<rparr>)
            = Inr (1, wheel3)"
    apply (simp add: AddJob_def NewJob_def Let_def entry_def nextTimeout_def div64_def
        wheel0_def signed_divide_int_def)
    apply (simp add: upd_entry_def upd_elem_def PushElementBack_def set_list_def get_list_def
        wheel0_def wheel3_def oneshot_def persist_def)
    done
  have d: "drain panics0 0 wheel3 = Some (Inl JobPanic)"
    apply (subst drain.simps)
    apply (simp add: Len_def get_list_def wheel3_def wheel0_def fire_def PopFront_def
        set_list_def upd_elem_def upd_entry_def entry_def Let_def oneshot_def panics0_def)
    done
  from a1 a2 d show ?thesis by simp
qed

text \<open>Claim C4 at a failing input: a wheel made at the epoch with a granularity of
  100 ms, woken up at 130 ms, 30 ms past a tick boundary. The pass advances the wheel to
  tick 1, and the duration handed to \<open>tick.Reset\<close> is \<open>nano % granularity\<close> = 30 ms,
  the time since the last boundary; the time remaining until the next one is 70 ms.\<close>

theorem rearm_is_remainder:
  "NewWheel 100000000 1000000000 0 = Inr wheel0
   \<and> wakeup run 130000000 wheel0 = Some (Inr (30000000, wheel0\<lparr>curTick := 1\<rparr>))
   \<and> granularity wheel0 - 30000000 = 70000000"
proof -
  let ?w = "wheel0\<lparr>curTick := 1\<rparr>"
  have d: "drain run 130000000 ?w = Some (Inr ?w)"
    by (subst drain.simps) (simp add: Len_def get_list_def wheel0_def)
  have m: "mod64 130000000 (granularity wheel0) = Inr 30000000"
    "div64 130000000 (granularity wheel0) = Inr 1"
    by (simp_all add: mod64_def div64_def wheel0_def signed_divide_int_def
        signed_modulo_int_def)
  have u: "unat (ucast (1 :: int64) - curTick wheel0) = 1"
    by (simp add: wheel0_def)
  have s: "SpliceBackList DoNow (Spoke 1) ?w = ?w"
  proof -
    have l: "(replicate 512 [])[Suc 0 := []] = (replicate 512 [] :: nat list list)"
      by (simp add: list_update_same_conv)
    show ?thesis
      by (simp add: SpliceBackList_def get_list_def set_list_def wheel0_def Let_def l)
  qed
  have len: "length (spokes wheel0) = 512" by (simp add: wheel0_def)
  have ct: "curTick wheel0 = 0" by (simp add: wheel0_def)
  have a: "advance 1 wheel0 = Some (Inr ?w)"
    using s len by (simp add: ct Let_def spoke_at_def tv_defs)
  have w: "wakeup run 130000000 wheel0 = Some (Inr (30000000, ?w))"
    unfolding wakeup_def by (simp only: m u a d sum.case option.case)
  have g: "granularity wheel0 - 30000000 = 70000000" by (simp add: wheel0_def)
  have n: "NewWheel 100000000 1000000000 0 = Inr wheel0"
    by (simp add: NewWheel_def div64_def wheel0_def tv_defs)
  from n w g show ?thesis by blast
qed

section \<open>Cascade\<close>

lemma drain_spoke_empty:
  "get_list spoke sf = [] \<Longrightarrow> drain_spoke spoke sf = Some (Inr sf)"
  by (subst drain_spoke.simps) (simp add: Len_def)

lemma NewWheel_3fff: "NewWheel 100000000 1000000000 1638300000000 = Inr wheel_3fff"
  by (simp add: NewWheel_def div64_def wheel_3fff_def wheel0_def tv_defs signed_divide_int_def)

lemma AddJob_wheel4: "AddJob 1638300000000 0 1 [1638400000000] wheel_3fff = Inr (0, wheel4)"
proof -
  have t: "nextTimeout wheel_3fff 1638300000000 1638400000000 = Inr 0x7FFF"
    by (simp add: nextTimeout_def div64_def wheel_3fff_def wheel0_def signed_divide_int_def)
  have i: "spokeIdx 0x7FFF 0x3FFF = 321" by code_simp
  show ?thesis
    apply (simp add: AddJob_def NewJob_def Let_def entry_def t)
    using i
    apply (simp add: entry_def upd_entry_def upd_elem_def
        addTimer_def spoke_at_def PushElementBack_def set_list_def get_list_def
        wheel4_def far_entry_def wheel_3fff_def wheel0_def)
    done
qed

lemma AddJob_wheel5: "AddJob 1638300000000 0 1 [4915300000000] wheel_3fff = Inr (0, wheel5)"
proof -
  have t: "nextTimeout wheel_3fff 1638300000000 4915300000000 = Inr 0x10000"
    by (simp add: nextTimeout_def div64_def wheel_3fff_def wheel0_def signed_divide_int_def)
  have i: "spokeIdx 0x10000 0x3FFF = 324" by code_simp
  show ?thesis
    apply (simp add: AddJob_def NewJob_def Let_def entry_def t)
    using i
    apply (simp add: entry_def upd_entry_def upd_elem_def
        addTimer_def spoke_at_def PushElementBack_def set_list_def get_list_def
        wheel5_def stuck_entry_def wheel_3fff_def wheel0_def)
    done
qed

lemma advance_wheel4: "advance 1 wheel4 = Some (Inr (wheel4\<lparr>curTick := 0x4000\<rparr>))"
proof -
  let ?w = "wheel4\<lparr>curTick := 0x4000\<rparr>"
  have e0: "drain_spoke (Spoke 256) ?w = Some (Inr ?w)"
    by (rule drain_spoke_empty) (simp add: get_list_def wheel4_def wheel_3fff_def wheel0_def)
  have e1: "drain_spoke (Spoke 324) ?w = Some (Inr ?w)"
    by (rule drain_spoke_empty) (simp add: get_list_def wheel4_def wheel_3fff_def wheel0_def)
  have i0: "unat (drop_bit (tvRBits + 0 * tvNNum) (curTick ?w) AND of_nat tvNMask) = 0"
    by (simp add: tv_defs)
  have i1: "unat (drop_bit (tvRBits + 1 * tvNNum) (curTick ?w) AND of_nat tvNMask) = 4"
    by (simp add: tv_defs)
  have len: "length (spokes wheel4) = 512" by (simp add: wheel4_def wheel_3fff_def wheel0_def)
  have c1: "cascade_from 1 ?w = Some (Inr ?w)"
    apply (subst cascade_from.simps)
    apply (simp only: i1 Let_def)
    apply (simp add: spoke_at_def len e1 tv_defs)
    done
  have c0: "cascade ?w = Some (Inr ?w)"
    unfolding cascade_def
    apply (subst cascade_from.simps)
    apply (simp only: i0 Let_def)
    apply (simp add: spoke_at_def len e0 tv_defs)
    using c1 apply simp
    done
  have s: "SpliceBackList DoNow (Spoke 0) ?w = ?w"
  proof -
    have l: "(replicate 512 [])[321 := [0 :: nat], 0 := []] = (replicate 512 [])[321 := [0]]"
      by (simp add: list_update_same_conv)
    have m: "(\<lambda>h. if h = 0 then Some far_entry else None) = [0 \<mapsto> far_entry]"
      by (simp add: fun_eq_iff)
    show ?thesis
      by (simp add: SpliceBackList_def get_list_def set_list_def wheel4_def wheel_3fff_def
          wheel0_def Let_def l m)
  qed
  have ct: "curTick wheel4 = 0x3FFF" by (simp add: wheel4_def wheel_3fff_def)
  show ?thesis
    using c0 s len
    by (simp add: ct Let_def spoke_at_def tv_defs)
qed

text \<open>Claim C2 at a failing input. A wheel is made at tick \<open>0x3FFF\<close> (granularity
  100 ms) and AddJob adds a job with an interval of \<open>0x4000\<close> ticks: the entry is due at
  tick \<open>0x7FFF\<close> and addTimer puts it into level 1, slot 1 (index 321). One tick later the
  current tick is \<open>0x4000\<close>, the main-level index and the level-0 index wrap to 0 and
  level 1 is processed. The claim's bucket there is
  \<open>256 + 64 + ((0x4000 >> 14) & 0x3F) = 321\<close>, from which the entry would move to
  level 0 (index 319); line 249 shifts by \<open>tvRBits + level*tvNNum = 12\<close>, so cascade
  drains bucket 324 and the entry stays in bucket 321.\<close>

theorem cascade_level1_slot:
  "NewWheel 100000000 1000000000 1638300000000 = Inr wheel_3fff
   \<and> AddJob 1638300000000 0 1 [1638400000000] wheel_3fff = Inr (0, wheel4)
   \<and> advance 1 wheel4 = Some (Inr (wheel4\<lparr>curTick := 0x4000\<rparr>))
   \<and> spokes (wheel4\<lparr>curTick := 0x4000\<rparr>) ! 321 = [0]
   \<and> 256 + 64 * 1 + unat (drop_bit (8 + 6 * 1) (0x4000 :: uint32) AND 0x3F) = 321
   \<and> tvRSize + tvNSize * 1
       + unat (drop_bit (tvRBits + 1 * tvNNum) (0x4000 :: uint32) AND of_nat tvNMask) = 324
   \<and> spec_slot 0x7FFF 0x4000 = 319"
proof -
  have s: "spec_slot 0x7FFF 0x4000 = 319"
    by (simp add: spec_slot_def spec_level_def Let_def)
  show ?thesis
    using NewWheel_3fff AddJob_wheel4 advance_wheel4 s
    by (simp add: tv_defs wheel4_def wheel_3fff_def wheel0_def)
qed

text \<open>On the same wheel, an AddJob with an interval of \<open>0xC001\<close> ticks gives an entry due
  at tick \<open>0x10000\<close> in level 1, slot 4 (index 324), the bucket cascade drains at tick
  \<open>0x4000\<close>; addTimer puts the entry back into bucket 324, so the inner loop of cascade
  never empties the bucket and the tick never completes.\<close>

lemma drain_spoke_stuck:
  fixes sf :: "'a Wheel"
  assumes "curTick sf = 0x4000" and "length (spokes sf) = 512" and "spokes sf ! 324 = [0]"
    and "elems sf 0 = Some el" and "next_tick (Value el) = 0x10000"
  shows "drain_spoke (Spoke 324) sf = None"
proof (rule ccontr)
  assume "drain_spoke (Spoke 324) sf \<noteq> None"
  then obtain y where y: "drain_spoke (Spoke 324) sf = Some y" by blast
  have i: "spokeIdx 0x10000 0x4000 = 324" by code_simp
  define P :: "listref \<Rightarrow> 'a Wheel \<Rightarrow> error + 'a Wheel \<Rightarrow> bool"
    where "P = (\<lambda>spoke sf y.
         \<not> (spoke = Spoke 324 \<and> curTick sf = 0x4000 \<and> length (spokes sf) = 512
          \<and> spokes sf ! 324 = [0]
          \<and> (\<exists>el. elems sf 0 = Some el \<and> next_tick (Value el) = 0x10000)))"
  have "P (Spoke 324) sf y"
  proof (rule drain_spoke.raw_induct[OF _ y])
    fix f :: "listref \<Rightarrow> 'a Wheel \<Rightarrow> (error + 'a Wheel) option"
    fix spoke :: listref and w :: "'a Wheel" and r :: "error + 'a Wheel"
    assume IH: "\<And>sf b y. f sf b = Some y \<Longrightarrow> P sf b y"
    assume body: "(if 0 < Len spoke w
      then case PopFront spoke w of (None, sf1) \<Rightarrow> Some (Inl NilPointer)
           | (Some e, sf1) \<Rightarrow>
               (case addTimer e sf1 of Inl err \<Rightarrow> Some (Inl err)
               | Inr sf2 \<Rightarrow> f spoke sf2)
      else Some (Inr w)) = Some r"
    show "P spoke w r"
      unfolding P_def
    proof
      assume inv: "spoke = Spoke 324 \<and> curTick w = 0x4000 \<and> length (spokes w) = 512
          \<and> spokes w ! 324 = [0]
          \<and> (\<exists>el. elems w 0 = Some el \<and> next_tick (Value el) = 0x10000)"
      then obtain el where el: "elems w 0 = Some el" "next_tick (Value el) = 0x10000" by blast
      let ?sf' = "PushElementBack (Spoke 324) 0
                    (upd_elem 0 (\<lambda>el. el\<lparr>in_list := None\<rparr>) (set_list (Spoke 324) [] w))"
      have "f (Spoke 324) ?sf' = Some r"
        using body inv el i
        by (simp add: Len_def get_list_def PopFront_def addTimer_def entry_def upd_elem_def
            set_list_def spoke_at_def)
      moreover have "curTick ?sf' = 0x4000 \<and> length (spokes ?sf') = 512
          \<and> spokes ?sf' ! 324 = [0]
          \<and> (\<exists>el. elems ?sf' 0 = Some el \<and> next_tick (Value el) = 0x10000)"
        using inv el
        by (simp add: PushElementBack_def get_list_def upd_elem_def set_list_def)
      ultimately show False using IH unfolding P_def by blast
    qed
  qed
  with assms show False unfolding P_def by blast
qed

lemma cascade_livelock:
  "AddJob 1638300000000 0 1 [4915300000000] wheel_3fff = Inr (0, wheel5)
   \<and> advance 1 wheel5 = None
   \<and> wakeup run 1638400000000 wheel5 = None"
proof -
  let ?w = "wheel5\<lparr>curTick := 0x4000\<rparr>"
  have e0: "drain_spoke (Spoke 256) ?w = Some (Inr ?w)"
    by (rule drain_spoke_empty) (simp add: get_list_def wheel5_def wheel_3fff_def wheel0_def)
  have e1: "drain_spoke (Spoke 324) ?w = None"
    by (rule drain_spoke_stuck[where el = stuck_entry])
      (simp_all add: wheel5_def wheel_3fff_def wheel0_def stuck_entry_def)
  have i0: "unat (drop_bit (tvRBits + 0 * tvNNum) (curTick ?w) AND of_nat tvNMask) = 0"
    by (simp add: tv_defs)
  have i1: "unat (drop_bit (tvRBits + 1 * tvNNum) (curTick ?w) AND of_nat tvNMask) = 4"
    by (simp add: tv_defs)
  have len: "length (spokes wheel5) = 512" by (simp add: wheel5_def wheel_3fff_def wheel0_def)
  have c1: "cascade_from 1 ?w = None"
    apply (subst cascade_from.simps)
    apply (simp only: i1 Let_def)
    apply (simp add: spoke_at_def len e1 tv_defs)
    done
  have c0: "cascade ?w = None"
    unfolding cascade_def
    apply (subst cascade_from.simps)
    apply (simp only: i0 Let_def)
    apply (simp add: spoke_at_def len e0 tv_defs)
    using c1 apply simp
    done
  have ct: "curTick wheel5 = 0x3FFF" "granularity wheel5 = 100000000"
    by (simp_all add: wheel5_def wheel_3fff_def wheel0_def)
  have a: "advance 1 wheel5 = None"
    using c0 by (simp add: ct Let_def tv_defs)
  have m: "mod64 1638400000000 (granularity wheel5) = Inr 0"
    "div64 1638400000000 (granularity wheel5) = Inr 0x4000"
    by (simp_all add: mod64_def div64_def ct signed_divide_int_def signed_modulo_int_def)
  have u: "unat (ucast (0x4000 :: int64) - curTick wheel5) = 1"
    by (simp add: ct)
  have w: "wakeup run 1638400000000 wheel5 = None"
    unfolding wakeup_def by (simp only: m u a sum.case option.case)
  from AddJob_wheel5 a w show ?thesis by blast
qed

section \<open>An entry the cascade never reaches\<close>

text \<open>When the level-0 index of a tick is 0, bit 12 of the tick is clear, so the level-1
  index line 249 computes, \<open>(curTick >> 12) & 0x3F\<close>, is never 1.\<close>

lemma bit12_clear:
  fixes k :: uint32
  assumes "drop_bit 8 k AND 63 = 0"
  shows "drop_bit 12 k AND 63 \<noteq> 1"
proof
  assume h: "drop_bit 12 k AND 63 = 1"
  have "bit (drop_bit 12 k AND 63) 0" by (simp add: h)
  then have b: "bit k 12" by (simp add: bit_and_iff bit_drop_bit_eq)
  have "\<not> bit (drop_bit 8 k AND 63) 4" by (simp add: assms)
  moreover have "bit (63 :: uint32) 4" by simp
  ultimately have "\<not> bit k 12" by (simp add: bit_and_iff bit_drop_bit_eq)
  with b show False by simp
qed

text \<open>A wheel whose only entry sits in bucket 321 (level 1, slot 1): every bucket that
  cascade drains and every bucket that the catch-up loop splices is empty, so a tick
  changes nothing but the current tick, whatever the current tick is.\<close>

lemma parked_bucket_empty:
  assumes "spokes w = (replicate 512 [])[321 := [0]]" and "i < 512" and "i \<noteq> 321"
  shows "get_list (Spoke i) w = []"
  using assms by (simp add: get_list_def)

lemma parked_drain:
  assumes "spokes w = (replicate 512 [])[321 := [0]]" and "i < 512" and "i \<noteq> 321"
  shows "drain_spoke (Spoke i) w = Some (Inr w)"
  by (rule drain_spoke_empty) (rule parked_bucket_empty[OF assms])

lemma parked_cascade_step:
  fixes w :: "'j Wheel"
  assumes S: "spokes w = (replicate 512 [])[321 := [0]]"
    and lvl: "level \<le> 3"
    and ne: "level = 1 \<Longrightarrow> drop_bit 12 (curTick w) AND 63 \<noteq> 1"
    and rec: "drop_bit (8 + level * 4) (curTick w) AND 63 = 0 \<Longrightarrow> level < 3 \<Longrightarrow>
              cascade_from (level + 1) w = Some (Inr w)"
  shows "cascade_from level w = Some (Inr w)"
proof -
  define x where "x = drop_bit (8 + level * 4) (curTick w) AND 63"
  have xb: "unat x < 64" unfolding x_def by (rule mask_bound63)
  have x0: "(unat x = 0) = (x = 0)" by (simp add: unat_eq_0)
  have i: "256 + 64 * level + unat x < 512" using xb lvl by simp
  have n: "256 + 64 * level + unat x \<noteq> 321"
  proof
    assume e: "256 + 64 * level + unat x = 321"
    with xb have "level = 1" by arith
    with e have "unat x = 1" by simp
    then have "x = 1" by (metis unat_1 word_unat_eq_iff)
    with ne[OF \<open>level = 1\<close>] \<open>level = 1\<close> show False by (simp add: x_def)
  qed
  have d: "drain_spoke (Spoke (256 + 64 * level + unat x)) w = Some (Inr w)"
    by (rule parked_drain[OF S i n])
  have len: "length (spokes w) = 512" by (simp add: S)
  show ?thesis
  proof (cases "x = 0 \<and> level < 3")
    case True
    then have r: "cascade_from (level + 1) w = Some (Inr w)"
      using rec by (simp add: x_def)
    show ?thesis
      apply (subst cascade_from.simps)
      using True r d i len
      apply (simp add: Let_def spoke_at_def tv_defs x_def[symmetric] x0)
      done
  next
    case False
    show ?thesis
      apply (subst cascade_from.simps)
      using False d i len
      apply (auto simp add: Let_def spoke_at_def tv_defs x_def[symmetric] x0)
      done
  qed
qed


lemma parked_cascade:
  fixes w :: "'j Wheel"
  assumes S: "spokes w = (replicate 512 [])[321 := [0]]"
  shows "cascade w = Some (Inr w)"
proof -
  have c3: "cascade_from 3 w = Some (Inr w)"
    by (rule parked_cascade_step[OF S]) simp_all
  have c2: "cascade_from 2 w = Some (Inr w)"
    by (rule parked_cascade_step[OF S]) (simp_all add: c3)
  have c2': "cascade_from (Suc (Suc 0)) w = Some (Inr w)"
    using c2 by (simp add: numeral_2_eq_2)
  have c1: "drop_bit 12 (curTick w) AND 63 \<noteq> 1 \<Longrightarrow> cascade_from 1 w = Some (Inr w)"
    by (rule parked_cascade_step[OF S]) (simp_all add: c2')
  have c1': "drop_bit 12 (curTick w) AND 63 \<noteq> 1 \<Longrightarrow> cascade_from (Suc 0) w = Some (Inr w)"
    using c1 by simp
  have "cascade_from 0 w = Some (Inr w)"
    by (rule parked_cascade_step[OF S]) (simp_all add: c1' bit12_clear)
  then show ?thesis by (simp add: cascade_def)
qed

lemma parked_splice:
  fixes w :: "'j Wheel"
  assumes S: "spokes w = (replicate 512 [])[321 := [0]]" and "i < 256"
  shows "SpliceBackList DoNow (Spoke i) w = w"
proof -
  have e: "spokes w ! i = []" using assms by simp
  have u: "(spokes w)[i := []] = spokes w"
    using assms e by (simp add: list_update_same_conv)
  show ?thesis
    by (simp add: SpliceBackList_def get_list_def set_list_def Let_def e u)
qed

lemma parked_advance_Suc:
  fixes w :: "'j Wheel"
  assumes S: "spokes w = (replicate 512 [])[321 := [0]]"
  shows "advance (Suc n) w = advance n (w\<lparr>curTick := curTick w + 1\<rparr>)"
proof -
  let ?w = "w\<lparr>curTick := curTick w + 1\<rparr>"
  have S': "spokes ?w = (replicate 512 [])[321 := [0]]" using S by simp
  have c: "cascade ?w = Some (Inr ?w)" by (rule parked_cascade[OF S'])
  have b: "unat ((curTick w + 1) AND 255) < 256" by (rule mask_bound255)
  have sp: "SpliceBackList DoNow (Spoke (unat ((curTick w + 1) AND 255))) ?w = ?w"
    by (rule parked_splice[OF S' b])
  have len: "length (spokes w) = 512" by (simp add: S)
  show ?thesis
  proof (cases "(curTick w + 1) AND 255 = 0")
    case True
    with sp have sp0: "SpliceBackList DoNow (Spoke 0) ?w = ?w" by simp
    show ?thesis
      using True c sp0 len by (simp add: Let_def spoke_at_def tv_defs)
  next
    case False
    show ?thesis
      using False sp b len by (simp add: Let_def spoke_at_def tv_defs)
  qed
qed

lemma parked_advance:
  fixes w :: "'j Wheel"
  assumes S: "spokes w = (replicate 512 [])[321 := [0]]"
  shows "advance n w = Some (Inr (w\<lparr>curTick := curTick w + of_nat n\<rparr>))"
  using S
proof (induction n arbitrary: w)
  case 0
  then show ?case by simp
next
  case (Suc n)
  let ?w = "w\<lparr>curTick := curTick w + 1\<rparr>"
  have S': "spokes ?w = (replicate 512 [])[321 := [0]]" using Suc.prems by simp
  show ?case
    using Suc.IH[OF S'] parked_advance_Suc[OF Suc.prems, of n]
    by (simp add: add.assoc add.commute)
qed

lemma parked_wakeup:
  fixes w :: "'j Wheel"
  assumes S: "spokes w = (replicate 512 [])[321 := [0]]" and D: "doNow w = []"
    and G: "granularity w \<noteq> 0"
  shows "\<exists>waitMs k. wakeup run nano w = Some (Inr (waitMs, w\<lparr>curTick := k\<rparr>))"
proof -
  obtain m q where m: "mod64 nano (granularity w) = Inr m" "div64 nano (granularity w) = Inr q"
    using G by (simp add: mod64_def div64_def)
  let ?w = "w\<lparr>curTick := curTick w + of_nat (unat (ucast q - curTick w))\<rparr>"
  have a: "advance (unat (ucast q - curTick w)) w = Some (Inr ?w)"
    by (rule parked_advance[OF S])
  have d: "drain run nano ?w = Some (Inr ?w)"
    using D by (subst drain.simps) (simp add: Len_def get_list_def)
  have "wakeup run nano w = Some (Inr (m, ?w))"
    unfolding wakeup_def by (simp only: m a d sum.case option.case)
  then show ?thesis by blast
qed

lemma parked_runWork:
  fixes w :: "'j Wheel"
  assumes S: "spokes w = (replicate 512 [])[321 := [0]]" and D: "doNow w = []"
    and G: "granularity w \<noteq> 0"
  shows "\<exists>k. runWork run evs w = Some (Inr (w\<lparr>curTick := k\<rparr>))"
  using assms
proof (induction evs arbitrary: w)
  case Nil
  have "w = w\<lparr>curTick := curTick w\<rparr>" by simp
  then show ?case by (metis runWork.simps(1))
next
  case (Cons ev evs)
  show ?case
  proof (cases ev)
    case Stop
    have "w = w\<lparr>curTick := curTick w\<rparr>" by simp
    then show ?thesis using Stop by (metis runWork.simps(2))
  next
    case (Tick nano)
    obtain waitMs k where wk: "wakeup run nano w = Some (Inr (waitMs, w\<lparr>curTick := k\<rparr>))"
      using parked_wakeup[OF Cons.prems] by blast
    have "\<exists>k'. runWork run evs (w\<lparr>curTick := k\<rparr>) = Some (Inr (w\<lparr>curTick := k\<rparr>\<lparr>curTick := k'\<rparr>))"
      using Cons.prems by (intro Cons.IH) simp_all
    then show ?thesis using Tick wk by simp
  qed
qed

text \<open>Claim C3 at a failing input. A wheel is made at tick \<open>0x3FFF\<close> (granularity
  100 ms) and AddJob adds a one-shot job (target count 1) with an interval of \<open>0x4000\<close>
  ticks; addTimer puts the entry into level 1, slot 1 (index 321). Whatever the driver
  then receives, wake-ups at any times in any number, and whatever the jobs do, its loop
  returns the wheel with nothing changed but the current tick: the entry is still in
  bucket 321 with fired count 0, it was never moved to the due-now list, never popped,
  and its job never ran. The claim says that an entry with target count 1 fires exactly
  once. The cause is the shift of line 249, as for claim C2.\<close>

theorem parked_oneshot_never_fires:
  "AddJob 1638300000000 0 1 [1638400000000] wheel_3fff = Inr (0, wheel4)
   \<and> elems wheel4 0 = Some far_entry
   \<and> number (Value far_entry) = 1 \<and> count (Value far_entry) = 0
   \<and> (\<forall>run evs. \<exists>k. runWork run evs wheel4 = Some (Inr (wheel4\<lparr>curTick := k\<rparr>)))"
proof -
  have S: "spokes wheel4 = (replicate 512 [])[321 := [0]]"
    and D: "doNow wheel4 = []" and G: "granularity wheel4 \<noteq> 0"
    by (simp_all add: wheel4_def wheel_3fff_def wheel0_def)
  have e: "elems wheel4 0 = Some far_entry" by (simp add: wheel4_def)
  have n: "number (Value far_entry) = 1" "count (Value far_entry) = 0"
    by (simp_all add: far_entry_def)
  have r: "\<forall>run evs. \<exists>k. runWork run evs wheel4 = Some (Inr (wheel4\<lparr>curTick := k\<rparr>))"
    using parked_runWork[OF S D G] by blast
  from AddJob_wheel4 e n r show ?thesis by blast
qed

end
